theory Spec2Isabelle
  imports Main
begin

section \<open>The mobile module runtime: data model\<close>

text \<open>
  The development embeds \<^verbatim>\<open>torch/csrc/jit/mobile/module.cpp\<close>: function registration and
  lookup in a compilation unit, the recursive operations over a module's object tree, and
  the instrumented call path of \<^verbatim>\<open>Method::run\<close>.
\<close>

subsection \<open>Dynamic values and objects\<close>

text \<open>
  Modelled from the spec: the tensor type is declared outside this file. The code only asks
  a tensor whether it tracks gradients (\<^verbatim>\<open>requires_grad()\<close>); the identifier stands for
  the tensor's identity.
\<close>

datatype tensor = Tensor (tensor_id: nat) (requires_grad: bool)

text \<open>
  Modelled from the spec: \<^verbatim>\<open>c10::IValue\<close> and \<^verbatim>\<open>c10::ivalue::Object\<close> are declared
  outside this file. A dynamic value is a tagged union; an object is an ordered sequence of
  named slots, each holding a dynamic value, together with the optional name of its type.
  A slot holding an object makes the object tree.
\<close>

datatype ivalue =
    INone
  | IBool bool
  | IInt int
  | ITensor tensor
  | IObject object
and object =
    Object (type_name: "string option") (slots: "(string \<times> ivalue) list")


fun isTensor :: "ivalue \<Rightarrow> bool" where
  "isTensor (ITensor t) = True"
| "isTensor v = False"

subsection \<open>Exceptions\<close>

text \<open>
  Modelled from the spec: the exception classes are declared outside this file. A
  \<^verbatim>\<open>c10::BackendRuntimeException\<close> is a \<^verbatim>\<open>c10::Error\<close> that also carries a list of
  debug handles; a \<^verbatim>\<open>c10::Error\<close> carries a message and a list of context strings;
  any other C++ exception is matched by neither handler of \<^verbatim>\<open>Method::run\<close>.
\<close>

datatype exn =
    BackendRuntimeException (exn_msg: string) (exn_context: "string list") (exn_handles: "int list")
  | Error (exn_msg: string) (exn_context: "string list")
  | OtherException (exn_msg: string)

datatype exn_type = BackendRuntimeExceptionT | ErrorT | OtherExceptionT

fun type_of_exn :: "exn \<Rightarrow> exn_type" where
  "type_of_exn (BackendRuntimeException m c h) = BackendRuntimeExceptionT"
| "type_of_exn (Error m c) = ErrorT"
| "type_of_exn (OtherException m) = OtherExceptionT"

fun pushDebugHandle :: "int \<Rightarrow> exn \<Rightarrow> exn" where
  "pushDebugHandle h (BackendRuntimeException m c hs) = BackendRuntimeException m c (hs @ [h])"
| "pushDebugHandle h e = e"

fun getDebugHandles :: "exn \<Rightarrow> int list" where
  "getDebugHandles (BackendRuntimeException m c hs) = hs"
| "getDebugHandles e = []"

fun add_context :: "string \<Rightarrow> exn \<Rightarrow> exn" where
  "add_context s (BackendRuntimeException m c hs) = BackendRuntimeException m (c @ [s]) hs"
| "add_context s (Error m c) = Error m (c @ [s])"
| "add_context s (OtherException m) = OtherException m"

text \<open>
  Modelled from the spec: \<^verbatim>\<open>TORCH_INTERNAL_ASSERT\<close> is a macro defined outside this file;
  the spec describes its failure as a fatal invariant violation, not a recoverable error.
  \<^verbatim>\<open>AT_ERROR\<close> raises a \<^verbatim>\<open>c10::Error\<close>.
\<close>

datatype 'a outcome =
    Returns 'a
  | Throws exn
  | InternalAssertFailed string

subsection \<open>Functions and the compilation unit\<close>

text \<open>
  Modelled from the spec: \<^verbatim>\<open>mobile::Function\<close> is declared outside this file. It owns a
  name, a qualified name and an executable body. Running the body mutates the stack in
  place and either returns or raises; the stack it leaves behind is visible to the caller
  in both cases.
\<close>

record Function =
  fn_name :: string
  fn_qualname :: string
  fn_getExceptionDebugHandle :: int
  fn_getDebugHandle :: "nat \<Rightarrow> int"
  fn_run :: "ivalue list \<Rightarrow> ivalue list \<times> exn option"

record CompilationUnit =
  cu_methods :: "Function list"

definition empty_unit :: CompilationUnit where
  "empty_unit = \<lparr>cu_methods = []\<rparr>"

definition register_function :: "CompilationUnit \<Rightarrow> Function \<Rightarrow> CompilationUnit" where
  "register_function cu fn = cu\<lparr>cu_methods := cu_methods cu @ [fn]\<rparr>"

text \<open>The range-for of \<^verbatim>\<open>find_function\<close>: the first function whose qualified name matches.\<close>

fun find_function_loop :: "Function list \<Rightarrow> string \<Rightarrow> Function option" where
  "find_function_loop [] qn = None"
| "find_function_loop (fn # rest) qn =
     (if fn_qualname fn = qn then Some fn else find_function_loop rest qn)"

text \<open>
  \<^verbatim>\<open>find_function\<close> is a non-const member; the unit it leaves behind is returned with
  the result.
\<close>

definition find_function :: "CompilationUnit \<Rightarrow> string \<Rightarrow> Function option \<times> CompilationUnit" where
  "find_function cu qn = (find_function_loop (cu_methods cu) qn, cu)"

subsection \<open>Modules and methods\<close>

text \<open>
  Modelled from the spec: the debug table is declared outside this file. It maps one debug
  handle, or a list of them, and the top-level type name to a string.
\<close>

record DebugTable =
  getSourceDebugString :: "int \<Rightarrow> string \<Rightarrow> string"
  getSourceDebugStrings :: "int list \<Rightarrow> string \<Rightarrow> string"
  getModuleHierarchyInfo :: "int \<Rightarrow> string \<Rightarrow> string"

record Module =
  m_object :: object
  m_metadata :: "(string \<times> string) list"
  m_cu :: CompilationUnit
  m_debug_table :: DebugTable

record Method =
  method_owner :: Module
  method_function :: Function

text \<open>
  What the build and the exception classes fix. \<open>symbolicate\<close>: whether
  \<^verbatim>\<open>SYMBOLICATE_MOBILE_DEBUG_HANDLE\<close> is defined. \<open>what\<close>: the text \<^verbatim>\<open>what()\<close>
  gives for an exception. \<open>rethrow_context\<close>: the macro \<^verbatim>\<open>TORCH_RETHROW\<close> is
  defined outside this file and is handed the caught exception; in a build that defines
  \<^verbatim>\<open>STRIP_ERROR_MESSAGES\<close> it is a bare \<^verbatim>\<open>throw\<close> (\<open>None\<close>), and otherwise it adds
  one context to the exception before the \<^verbatim>\<open>throw\<close>: the text of its further
  arguments, of which this file passes none (\<open>Some\<close> of that text).
\<close>

record runtime =
  symbolicate :: bool
  what :: "exn \<Rightarrow> string"
  rethrow_context :: "string option"

fun find_method_loop :: "Module \<Rightarrow> Function list \<Rightarrow> string \<Rightarrow> Method option" where
  "find_method_loop m [] basename = None"
| "find_method_loop m (fn # rest) basename =
     (if fn_name fn = basename then Some \<lparr>method_owner = m, method_function = fn\<rparr>
      else find_method_loop m rest basename)"

definition find_method :: "Module \<Rightarrow> string \<Rightarrow> Method option" where
  "find_method m basename = find_method_loop m (cu_methods (m_cu m)) basename"

definition get_method :: "Module \<Rightarrow> string \<Rightarrow> Method outcome" where
  "get_method m name =
     (case find_method m name of
        Some method \<Rightarrow> Returns method
      | None \<Rightarrow> Throws (Error (''Method '' @ [CHR 0x27] @ name @ [CHR 0x27] @ '' is not defined.'') []))"

definition get_methods :: "Module \<Rightarrow> Method list" where
  "get_methods m = map (\<lambda>fn. \<lparr>method_owner = m, method_function = fn\<rparr>) (cu_methods (m_cu m))"

definition get_debug_handle :: "Method \<Rightarrow> nat \<Rightarrow> int" where
  "get_debug_handle method pc = fn_getDebugHandle (method_function method) pc"

subsection \<open>The object tree\<close>

text \<open>
  Modelled from the spec: \<^verbatim>\<open>findAttributeSlot\<close>, \<^verbatim>\<open>getSlot\<close> and \<^verbatim>\<open>setSlot\<close> belong
  to the object and its type, declared outside this file. The slot of an attribute is the
  position of the first slot with that name.
\<close>

fun findAttributeSlot :: "(string \<times> ivalue) list \<Rightarrow> string \<Rightarrow> nat option" where
  "findAttributeSlot [] a = None"
| "findAttributeSlot ((n, v) # rest) a =
     (if n = a then Some 0 else map_option Suc (findAttributeSlot rest a))"

definition setSlot :: "object \<Rightarrow> nat \<Rightarrow> ivalue \<Rightarrow> object" where
  "setSlot obj slot v =
     Object (type_name obj) ((slots obj)[slot := (fst (slots obj ! slot), v)])"

definition getSlot :: "object \<Rightarrow> nat \<Rightarrow> ivalue" where
  "getSlot obj slot = snd (slots obj ! slot)"

text \<open>Modelled from the spec: \<^verbatim>\<open>toBool\<close> asserts that the value holds a boolean.\<close>

fun toBool :: "ivalue \<Rightarrow> bool outcome" where
  "toBool (IBool b) = Returns b"
| "toBool v = InternalAssertFailed ''isBool()''"

definition training_not_found :: string where
  "training_not_found = [CHR 0x27] @ ''training'' @ [CHR 0x27] @ '' attribute not found''"

text \<open>
  \<^verbatim>\<open>set_train_recurse\<close> writes the \<^verbatim>\<open>training\<close> slot first and then walks the slots
  as they are after that write. The object is mutated in place in the source; here the
  updated object is returned. \<^verbatim>\<open>set_train_loop\<close> is the range-for over the slots.
\<close>

function set_train_recurse :: "object \<Rightarrow> bool \<Rightarrow> object outcome"
  and set_train_loop :: "(string \<times> ivalue) list \<Rightarrow> bool \<Rightarrow> (string \<times> ivalue) list outcome"
where
  "set_train_recurse obj on =
     (case findAttributeSlot (slots obj) ''training'' of
        None \<Rightarrow> InternalAssertFailed training_not_found
      | Some slot \<Rightarrow>
          (case set_train_loop (slots (setSlot obj slot (IBool on))) on of
             Returns sl \<Rightarrow> Returns (Object (type_name obj) sl)
           | Throws e \<Rightarrow> Throws e
           | InternalAssertFailed msg \<Rightarrow> InternalAssertFailed msg))"
| "set_train_loop [] on = Returns []"
| "set_train_loop ((n, slot) # rest) on =
     (case slot of
        IObject child \<Rightarrow>
          (case set_train_recurse child on of
             Returns child' \<Rightarrow>
               (case set_train_loop rest on of
                  Returns rest' \<Rightarrow> Returns ((n, IObject child') # rest')
                | Throws e \<Rightarrow> Throws e
                | InternalAssertFailed msg \<Rightarrow> InternalAssertFailed msg)
           | Throws e \<Rightarrow> Throws e
           | InternalAssertFailed msg \<Rightarrow> InternalAssertFailed msg)
      | _ \<Rightarrow>
          (case set_train_loop rest on of
             Returns rest' \<Rightarrow> Returns ((n, slot) # rest')
           | Throws e \<Rightarrow> Throws e
           | InternalAssertFailed msg \<Rightarrow> InternalAssertFailed msg))"
  by pat_completeness auto
termination
proof (relation "measure (\<lambda>x. case x of
          Inl (obj, on) \<Rightarrow> 2 * size obj + 1
        | Inr (sl, on) \<Rightarrow> 2 * size_list (size_prod (\<lambda>_. 0) size) sl)", goal_cases)
  case 1
  then show ?case by simp
next
  case (2 obj on slot)
  have shrink: "size_list (size_prod (\<lambda>_. 0) size) (sl[i := (n, IBool b)])
                  \<le> size_list (size_prod (\<lambda>_. 0) size) sl"
    for sl :: "(string \<times> ivalue) list" and i n b
  proof (induction sl arbitrary: i)
    case Nil
    then show ?case by simp
  next
    case (Cons a sl)
    then show ?case by (cases i; cases a) auto
  qed
  from shrink [of "slots obj" slot "fst (slots obj ! slot)" on] show ?case
    by (cases obj) (simp add: setSlot_def)
qed simp_all

definition train :: "Module \<Rightarrow> bool \<Rightarrow> Module outcome" where
  "train m on =
     (case set_train_recurse (m_object m) on of
        Returns obj \<Rightarrow> Returns (m\<lparr>m_object := obj\<rparr>)
      | Throws e \<Rightarrow> Throws e
      | InternalAssertFailed msg \<Rightarrow> InternalAssertFailed msg)"

definition is_training :: "Module \<Rightarrow> bool outcome" where
  "is_training m =
     (case findAttributeSlot (slots (m_object m)) ''training'' of
        Some slot \<Rightarrow> toBool (getSlot (m_object m) slot)
      | None \<Rightarrow> Returns True)"

fun slot_params_recurse :: "object \<Rightarrow> tensor list \<Rightarrow> tensor list"
  and slot_params_loop :: "(string \<times> ivalue) list \<Rightarrow> tensor list \<Rightarrow> tensor list"
where
  "slot_params_recurse (Object ty sl) params = slot_params_loop sl params"
| "slot_params_loop [] params = params"
| "slot_params_loop ((n, slot) # rest) params =
     (case slot of
        ITensor t \<Rightarrow> slot_params_loop rest (params @ [t])
      | IObject child \<Rightarrow> slot_params_loop rest (slot_params_recurse child params)
      | _ \<Rightarrow> slot_params_loop rest params)"

definition parameters :: "Module \<Rightarrow> tensor list" where
  "parameters m = slot_params_recurse (m_object m) []"

text \<open>
  \<^verbatim>\<open>slot_named_params_recurse\<close>: the name of a slot is its attribute name when the
  parent name is empty, and the parent name, a dot and the attribute name otherwise. The
  \<^verbatim>\<open>std::map\<close> is a partial function; an assignment to an existing key replaces it.
\<close>

fun slot_named_params_recurse :: "object \<Rightarrow> (string \<rightharpoonup> tensor) \<Rightarrow> string \<Rightarrow> (string \<rightharpoonup> tensor)"
  and slot_named_params_loop ::
    "(string \<times> ivalue) list \<Rightarrow> (string \<rightharpoonup> tensor) \<Rightarrow> string \<Rightarrow> (string \<rightharpoonup> tensor)"
where
  "slot_named_params_recurse (Object ty sl) params parent_name =
     slot_named_params_loop sl params parent_name"
| "slot_named_params_loop [] params parent_name = params"
| "slot_named_params_loop ((attr, slot) # rest) params parent_name =
     (let name = (if length parent_name = 0 then parent_name else parent_name @ ''.'') @ attr
      in case slot of
           ITensor t \<Rightarrow>
             (if requires_grad t then slot_named_params_loop rest (params(name \<mapsto> t)) parent_name
              else slot_named_params_loop rest params parent_name)
         | IObject child \<Rightarrow>
             slot_named_params_loop rest (slot_named_params_recurse child params name) parent_name
         | _ \<Rightarrow> slot_named_params_loop rest params parent_name)"

definition named_parameters :: "Module \<Rightarrow> (string \<rightharpoonup> tensor)" where
  "named_parameters m = slot_named_params_recurse (m_object m) Map.empty []"

fun getTopModuleTypeName :: "Module \<Rightarrow> string" where
  "getTopModuleTypeName m = (case type_name (m_object m) of Some name \<Rightarrow> name | None \<Rightarrow> [])"

definition getModuleHierarchy :: "runtime \<Rightarrow> Module \<Rightarrow> int \<Rightarrow> string" where
  "getModuleHierarchy rt m debug_handle =
     (if symbolicate rt
      then getModuleHierarchyInfo (m_debug_table m) debug_handle (getTopModuleTypeName m)
      else [])"

definition getCallStack :: "runtime \<Rightarrow> Module \<Rightarrow> int \<Rightarrow> string" where
  "getCallStack rt m debug_handle =
     (if symbolicate rt
      then getSourceDebugString (m_debug_table m) debug_handle (getTopModuleTypeName m)
      else [])"

text \<open>
  \<^verbatim>\<open>get_forward_method_debug_info\<close> applies \<^verbatim>\<open>->\<close> to the optional that
  \<^verbatim>\<open>find_method\<close> returns, with no test that it holds a method. On an empty optional the
  source raises nothing and defines no result: that outcome is \<open>EmptyOptionalAccess\<close>.
\<close>

datatype 'a access = Valid 'a | EmptyOptionalAccess

definition get_forward_method_debug_info :: "runtime \<Rightarrow> Module \<Rightarrow> nat \<Rightarrow> string access" where
  "get_forward_method_debug_info rt m pc =
     (case find_method m ''forward'' of
        None \<Rightarrow> EmptyOptionalAccess
      | Some method \<Rightarrow>
          (let debug_handle = get_debug_handle method pc
           in Valid (if symbolicate rt
                     then getModuleHierarchyInfo (m_debug_table m) debug_handle
                            (getTopModuleTypeName m)
                     else [])))"

subsection \<open>The instrumented call\<close>

text \<open>
  Modelled from the spec: the observer, the thread-local debug info and its guard are
  declared outside this file. The world holds whether a module observer is registered, the
  stack of installed debug-info records, and the calls made on these collaborators in the
  order they happen: the three observer notifications, the construction and destruction of
  the \<^verbatim>\<open>DebugInfoGuard\<close>, and the entry into \<^verbatim>\<open>Function::run\<close>.
\<close>

record MobileDebugInfo =
  model_name :: string
  method_name :: string

datatype event =
    OnEnterRunMethod "(string \<times> string) list" int string
  | OnExitRunMethod int
  | OnFailRunMethod int string
  | DebugInfoInstalled MobileDebugInfo
  | DebugInfoReleased
  | FunctionRun string

record world =
  observer :: bool
  debug_info :: "MobileDebugInfo list"
  trace :: "event list"

definition emit :: "event \<Rightarrow> world \<Rightarrow> world" where
  "emit ev w = w\<lparr>trace := trace w @ [ev]\<rparr>"

definition DebugInfoGuard_enter :: "MobileDebugInfo \<Rightarrow> world \<Rightarrow> world" where
  "DebugInfoGuard_enter info w =
     emit (DebugInfoInstalled info) (w\<lparr>debug_info := info # debug_info w\<rparr>)"

definition DebugInfoGuard_exit :: "world \<Rightarrow> world" where
  "DebugInfoGuard_exit w = emit DebugInfoReleased (w\<lparr>debug_info := tl (debug_info w)\<rparr>)"

text \<open>\<^verbatim>\<open>copied_metadata["model_name"]\<close>: an absent key reads as the empty string.\<close>

definition metadata_at :: "(string \<times> string) list \<Rightarrow> string \<Rightarrow> string" where
  "metadata_at md k = (case map_of md k of Some v \<Rightarrow> v | None \<Rightarrow> [])"

text \<open>The body of the scope-exit lambda, run when the guard was not released.\<close>

definition failure_guard :: "runtime \<Rightarrow> Method \<Rightarrow> int \<Rightarrow> string \<Rightarrow> world \<Rightarrow> world" where
  "failure_guard rt m instance_key error_message w =
     (if \<not> observer w then w
      else
        (let error_message' =
               (if symbolicate rt \<and> error_message = []
                then getSourceDebugString (m_debug_table (method_owner m))
                       (fn_getExceptionDebugHandle (method_function m))
                       (getTopModuleTypeName (method_owner m))
                else error_message)
         in emit (OnFailRunMethod instance_key
                    (if error_message' = [] then ''Unknown exception'' else error_message')) w))"

text \<open>\<^verbatim>\<open>TORCH_RETHROW(e)\<close>: the exception that the \<^verbatim>\<open>throw\<close> of the macro re-raises.\<close>

definition TORCH_RETHROW :: "runtime \<Rightarrow> exn \<Rightarrow> exn" where
  "TORCH_RETHROW rt e =
     (case rethrow_context rt of
        None \<Rightarrow> e
      | Some s \<Rightarrow> add_context s e)"

text \<open>
  The two handlers, in the order of the source: the exception that is re-raised and the
  error message recorded for the guard. The message is read before the macro re-raises.
  An exception that is not a \<^verbatim>\<open>c10::Error\<close> passes both handlers and leaves the
  message empty.
\<close>

fun catch_exception :: "runtime \<Rightarrow> Method \<Rightarrow> exn \<Rightarrow> exn \<times> string" where
  "catch_exception rt m (BackendRuntimeException msg ctx hs) =
     (let e = BackendRuntimeException msg ctx hs;
          e' = (if symbolicate rt
                then (let e1 = pushDebugHandle (fn_getExceptionDebugHandle (method_function m)) e;
                          debug_string =
                            getSourceDebugStrings (m_debug_table (method_owner m))
                              (getDebugHandles e1) (getTopModuleTypeName (method_owner m))
                      in add_context debug_string e1)
                else e)
      in (TORCH_RETHROW rt e', what rt e'))"
| "catch_exception rt m (Error msg ctx) =
     (let error = Error msg ctx;
          error' = (if symbolicate rt
                    then (let debug_string =
                                getSourceDebugString (m_debug_table (method_owner m))
                                  (fn_getExceptionDebugHandle (method_function m))
                                  (getTopModuleTypeName (method_owner m))
                          in add_context debug_string error)
                    else error)
      in (TORCH_RETHROW rt error', what rt error'))"
| "catch_exception rt m (OtherException msg) = (OtherException msg, [])"

text \<open>
  \<^verbatim>\<open>Method::run\<close>. The instance key is the value \<^verbatim>\<open>std::rand()\<close> returned. The result
  is the outcome, the caller's stack as the call leaves it, and the world. Locals are
  destroyed in reverse order of construction: the failure guard first, the
  \<^verbatim>\<open>DebugInfoGuard\<close> after it.
\<close>

definition Method_run ::
  "runtime \<Rightarrow> Method \<Rightarrow> int \<Rightarrow> ivalue list \<Rightarrow> world \<Rightarrow> unit outcome \<times> ivalue list \<times> world" where
  "Method_run rt m instance_key stack w =
     (let owner = method_owner m;
          function = method_function m;
          copied_metadata = m_metadata owner;
          w1 = (if observer w
                then emit (OnEnterRunMethod copied_metadata instance_key (fn_name function)) w
                else w);
          name = metadata_at copied_metadata ''model_name'';
          info = \<lparr>model_name = name, method_name = fn_name function\<rparr>;
          w2 = DebugInfoGuard_enter info w1;
          stack1 = IObject (m_object owner) # stack;
          w3 = emit (FunctionRun (fn_name function)) w2
      in case fn_run function stack1 of
           (stack2, None) \<Rightarrow>
             (let w4 = (if observer w3 then emit (OnExitRunMethod instance_key) w3 else w3)
              in (Returns (), stack2, DebugInfoGuard_exit w4))
         | (stack2, Some e) \<Rightarrow>
             (case catch_exception rt m e of
                (e', error_message) \<Rightarrow>
                  (let w4 = failure_guard rt m instance_key error_message w3
                   in (Throws e', stack2, DebugInfoGuard_exit w4))))"

text \<open>
  \<^verbatim>\<open>Method::operator()\<close> takes the stack by value, so only the outcome and the world
  come back.
\<close>

definition Method_call ::
  "runtime \<Rightarrow> Method \<Rightarrow> int \<Rightarrow> ivalue list \<Rightarrow> world \<Rightarrow> ivalue outcome \<times> world" where
  "Method_call rt m instance_key stack w =
     (case Method_run rt m instance_key stack w of
        (Returns u, stack', w') \<Rightarrow>
          (case stack' of
             [] \<Rightarrow> (InternalAssertFailed ''!stack.empty()'', w')
           | front # rest \<Rightarrow> (Returns front, w'))
      | (Throws e, stack', w') \<Rightarrow> (Throws e, w')
      | (InternalAssertFailed msg, stack', w') \<Rightarrow> (InternalAssertFailed msg, w'))"

section \<open>Notions used to state the properties\<close>



definition has_training :: "object \<Rightarrow> bool" where
  "has_training obj = (findAttributeSlot (slots obj) ''training'' \<noteq> None)"


text \<open>
  The nodes \<^verbatim>\<open>train\<close> visits: the root, and the objects held in the slots of a visited
  node once its \<^verbatim>\<open>training\<close> slot holds a boolean. A node without the attribute is
  visited, and nothing below it is.
\<close>

function visited :: "object \<Rightarrow> object list"
  and visited_slots :: "(string \<times> ivalue) list \<Rightarrow> object list"
where
  "visited obj =
     (case findAttributeSlot (slots obj) ''training'' of
        None \<Rightarrow> [obj]
      | Some slot \<Rightarrow> obj # visited_slots (slots (setSlot obj slot (IBool True))))"
| "visited_slots [] = []"
| "visited_slots ((n, slot) # rest) =
     (case slot of
        IObject child \<Rightarrow> visited child @ visited_slots rest
      | _ \<Rightarrow> visited_slots rest)"
  by pat_completeness auto
termination
proof (relation "measure (\<lambda>x. case x of
          Inl obj \<Rightarrow> 2 * size obj + 1
        | Inr sl \<Rightarrow> 2 * size_list (size_prod (\<lambda>_. 0) size) sl)", goal_cases)
  case 1
  then show ?case by simp
next
  case (2 obj slot)
  have shrink: "size_list (size_prod (\<lambda>_. 0) size) (sl[i := (n, IBool b)])
                  \<le> size_list (size_prod (\<lambda>_. 0) size) sl"
    for sl :: "(string \<times> ivalue) list" and i n b
  proof (induction sl arbitrary: i)
    case Nil
    then show ?case by simp
  next
    case (Cons a sl)
    then show ?case by (cases i; cases a) auto
  qed
  from shrink [of "slots obj" slot "fst (slots obj ! slot)" True] show ?case
    by (cases obj) (simp add: setSlot_def)
qed simp_all

text \<open>
  The gradient-tracking tensor slots of an object tree, depth-first, each with its path:
  the attribute name under an empty parent path, and the parent path, a dot and the
  attribute name otherwise.
\<close>

definition dotted :: "string \<Rightarrow> string \<Rightarrow> string" where
  "dotted parent attr = (if parent = [] then attr else parent @ ''.'' @ attr)"

fun grad_slots :: "string \<Rightarrow> object \<Rightarrow> (string \<times> tensor) list"
  and grad_slots_list :: "string \<Rightarrow> (string \<times> ivalue) list \<Rightarrow> (string \<times> tensor) list"
where
  "grad_slots parent (Object ty sl) = grad_slots_list parent sl"
| "grad_slots_list parent [] = []"
| "grad_slots_list parent ((attr, slot) # rest) =
     (case slot of
        ITensor t \<Rightarrow>
          (if requires_grad t then [(dotted parent attr, t)] else [])
            @ grad_slots_list parent rest
      | IObject child \<Rightarrow> grad_slots (dotted parent attr) child @ grad_slots_list parent rest
      | _ \<Rightarrow> grad_slots_list parent rest)"

text \<open>The events of a call: what a run appended to the trace.\<close>

definition new_events :: "world \<Rightarrow> world \<Rightarrow> event list" where
  "new_events w w' = drop (length (trace w)) (trace w')"

fun is_exit :: "event \<Rightarrow> bool" where
  "is_exit (OnExitRunMethod k) = True"
| "is_exit ev = False"

fun is_fail :: "event \<Rightarrow> bool" where
  "is_fail (OnFailRunMethod k msg) = True"
| "is_fail ev = False"

text \<open>The message the failure guard hands to the observer, given the recorded error message.\<close>

definition fail_message :: "runtime \<Rightarrow> Method \<Rightarrow> string \<Rightarrow> string" where
  "fail_message rt m error_message =
     (let error_message' =
            (if symbolicate rt \<and> error_message = []
             then getSourceDebugString (m_debug_table (method_owner m))
                    (fn_getExceptionDebugHandle (method_function m))
                    (getTopModuleTypeName (method_owner m))
             else error_message)
      in if error_message' = [] then ''Unknown exception'' else error_message')"

text \<open>The contexts that \<^verbatim>\<open>TORCH_RETHROW\<close> adds to the exception it re-raises.\<close>

definition rethrow_contexts :: "runtime \<Rightarrow> string list" where
  "rethrow_contexts rt = (case rethrow_context rt of None \<Rightarrow> [] | Some s \<Rightarrow> [s])"

text \<open>The implicit first argument of a call: the owner's root object.\<close>

definition self :: "Method \<Rightarrow> ivalue" where
  "self m = IObject (m_object (method_owner m))"

definition installed_info :: "Method \<Rightarrow> MobileDebugInfo" where
  "installed_info m =
     \<lparr>model_name = metadata_at (m_metadata (method_owner m)) ''model_name'',
      method_name = fn_name (method_function m)\<rparr>"

definition enter_event :: "Method \<Rightarrow> int \<Rightarrow> event" where
  "enter_event m k =
     OnEnterRunMethod (m_metadata (method_owner m)) k (fn_name (method_function m))"

section \<open>Example values\<close>

definition table_ex :: DebugTable where
  "table_ex =
     \<lparr>getSourceDebugString = (\<lambda>h top. ''at '' @ top),
      getSourceDebugStrings = (\<lambda>hs top. ''stack of '' @ top),
      getModuleHierarchyInfo = (\<lambda>h top. ''top('' @ top @ '')'')\<rparr>"

definition fn_forward :: Function where
  "fn_forward =
     \<lparr>fn_name = ''forward'', fn_qualname = ''__torch__.M.forward'',
      fn_getExceptionDebugHandle = 7, fn_getDebugHandle = (\<lambda>pc. int pc),
      fn_run = (\<lambda>st. ([IInt 1], None))\<rparr>"

definition fn_backend_fails :: Function where
  "fn_backend_fails =
     \<lparr>fn_name = ''delegate'', fn_qualname = ''__torch__.M.delegate'',
      fn_getExceptionDebugHandle = 8, fn_getDebugHandle = (\<lambda>pc. int pc),
      fn_run = (\<lambda>st. (st, Some (BackendRuntimeException ''boom'' [] [3])))\<rparr>"

definition fn_error_fails :: Function where
  "fn_error_fails =
     \<lparr>fn_name = ''check'', fn_qualname = ''__torch__.M.check'',
      fn_getExceptionDebugHandle = 9, fn_getDebugHandle = (\<lambda>pc. int pc),
      fn_run = (\<lambda>st. (st, Some (Error ''bad shape'' [])))\<rparr>"

definition fn_leaves_nothing :: Function where
  "fn_leaves_nothing =
     \<lparr>fn_name = ''noop'', fn_qualname = ''__torch__.M.noop'',
      fn_getExceptionDebugHandle = 10, fn_getDebugHandle = (\<lambda>pc. int pc),
      fn_run = (\<lambda>st. ([], None))\<rparr>"

definition fn_drops_self :: Function where
  "fn_drops_self =
     \<lparr>fn_name = ''drop'', fn_qualname = ''__torch__.M.drop'',
      fn_getExceptionDebugHandle = 12, fn_getDebugHandle = (\<lambda>pc. int pc),
      fn_run = (\<lambda>st. (tl st, Some (Error ''bad shape'' [])))\<rparr>"

definition fn_forward_again :: Function where
  "fn_forward_again = fn_forward\<lparr>fn_name := ''forward2'', fn_getExceptionDebugHandle := 11\<rparr>"

definition object_ex :: object where
  "object_ex =
     Object (Some ''M'')
       [(''training'', IBool False),
        (''weight'', ITensor (Tensor 1 False)),
        (''child'', IObject (Object (Some ''Leaf'')
           [(''training'', IBool False), (''leaf'', ITensor (Tensor 2 True))]))]"

definition module_ex :: Module where
  "module_ex =
     \<lparr>m_object = object_ex,
      m_metadata = [(''model_name'', ''net'')],
      m_cu = \<lparr>cu_methods = [fn_forward, fn_backend_fails, fn_error_fails, fn_leaves_nothing]\<rparr>,
      m_debug_table = table_ex\<rparr>"

definition method_ex :: "Function \<Rightarrow> Method" where
  "method_ex fn = \<lparr>method_owner = module_ex, method_function = fn\<rparr>"

definition module_no_forward :: Module where
  "module_no_forward = module_ex\<lparr>m_cu := \<lparr>cu_methods = [fn_backend_fails]\<rparr>\<rparr>"

definition module_child_untrained :: Module where
  "module_child_untrained =
     module_ex\<lparr>m_object :=
       Object (Some ''M'')
         [(''training'', IBool False),
          (''child'', IObject (Object (Some ''Leaf'') [(''leaf'', ITensor (Tensor 2 True))]))]\<rparr>"

definition module_no_training :: Module where
  "module_no_training =
     module_ex\<lparr>m_object := Object (Some ''M'') [(''weight'', ITensor (Tensor 1 False))]\<rparr>"

definition module_collision :: Module where
  "module_collision =
     module_ex\<lparr>m_object :=
       Object (Some ''M'')
         [(''a.b'', ITensor (Tensor 1 True)),
          (''a'', IObject (Object (Some ''A'') [(''b'', ITensor (Tensor 2 True))]))]\<rparr>"

definition module_two_level :: Module where
  "module_two_level =
     module_ex\<lparr>m_object :=
       Object (Some ''M'')
         [(''weight'', ITensor (Tensor 1 False)),
          (''child'', IObject (Object (Some ''Leaf'') [(''leaf'', ITensor (Tensor 2 True))]))]\<rparr>"

text \<open>Two builds that strip error messages, with and without symbolication.\<close>

definition runtime_sym :: runtime where
  "runtime_sym = \<lparr>symbolicate = True, what = exn_msg, rethrow_context = None\<rparr>"

definition runtime_plain :: runtime where
  "runtime_plain = \<lparr>symbolicate = False, what = exn_msg, rethrow_context = None\<rparr>"

text \<open>
  Two builds that keep error messages, with and without symbolication: the macro adds the
  empty text of its absent arguments as a context.
\<close>

definition runtime_messages_sym :: runtime where
  "runtime_messages_sym = \<lparr>symbolicate = True, what = exn_msg, rethrow_context = Some []\<rparr>"

definition runtime_messages_plain :: runtime where
  "runtime_messages_plain = \<lparr>symbolicate = False, what = exn_msg, rethrow_context = Some []\<rparr>"

definition world_observed :: world where
  "world_observed = \<lparr>observer = True, debug_info = [], trace = []\<rparr>"

definition world_unobserved :: world where
  "world_unobserved = \<lparr>observer = False, debug_info = [], trace = []\<rparr>"

section \<open>Function lookup\<close>

lemma methods_register_all:
  "cu_methods (foldl register_function cu fs) = cu_methods cu @ fs"
  by (induction fs arbitrary: cu) (simp_all add: register_function_def)

lemma find_function_loop_None:
  "(find_function_loop fs qn = None) = (\<forall>f \<in> set fs. fn_qualname f \<noteq> qn)"
  by (induction fs) auto

lemma find_function_loop_Some:
  "find_function_loop fs qn = Some f \<Longrightarrow>
   \<exists>i < length fs. fs ! i = f \<and> fn_qualname f = qn \<and> (\<forall>j < i. fn_qualname (fs ! j) \<noteq> qn)"
proof (induction fs)
  case Nil
  then show ?case by simp
next
  case (Cons g gs)
  show ?case
  proof (cases "fn_qualname g = qn")
    case True
    with Cons.prems have "g = f" by simp
    with True have "(g # gs) ! 0 = f \<and> fn_qualname f = qn \<and> (\<forall>j < 0. fn_qualname ((g # gs) ! j) \<noteq> qn)"
      by simp
    then show ?thesis by blast
  next
    case False
    with Cons.prems have "find_function_loop gs qn = Some f" by simp
    from Cons.IH [OF this] obtain i where i: "i < length gs" "gs ! i = f" "fn_qualname f = qn"
      "\<forall>j < i. fn_qualname (gs ! j) \<noteq> qn" by blast
    have "\<forall>j < Suc i. fn_qualname ((g # gs) ! j) \<noteq> qn"
    proof (intro allI impI)
      fix j assume "j < Suc i"
      then show "fn_qualname ((g # gs) ! j) \<noteq> qn"
        using False i(4) by (cases j) auto
    qed
    with i have "Suc i < length (g # gs) \<and> (g # gs) ! Suc i = f \<and> fn_qualname f = qn
        \<and> (\<forall>j < Suc i. fn_qualname ((g # gs) ! j) \<noteq> qn)"
      by simp
    then show ?thesis by blast
  qed
qed

text \<open>
  Claim C7. After any sequence of \<^verbatim>\<open>register_function\<close> calls on a fresh compilation
  unit, \<^verbatim>\<open>find_function\<close> returns the first function in registration order whose
  qualified name equals the argument, returns "not found" exactly when no registered
  function has that qualified name, and leaves the unit as it was.
\<close>

theorem find_function_first_match:
  "snd (find_function (foldl register_function empty_unit fs) qn)
     = foldl register_function empty_unit fs
   \<and> ((fst (find_function (foldl register_function empty_unit fs) qn) = None)
        = (\<forall>f \<in> set fs. fn_qualname f \<noteq> qn))
   \<and> (\<forall>f. fst (find_function (foldl register_function empty_unit fs) qn) = Some f \<longrightarrow>
        (\<exists>i < length fs. fs ! i = f \<and> fn_qualname f = qn
           \<and> (\<forall>j < i. fn_qualname (fs ! j) \<noteq> qn)))"
proof -
  have ms: "cu_methods (foldl register_function empty_unit fs) = fs"
    by (simp add: methods_register_all empty_unit_def)
  show ?thesis
    unfolding find_function_def fst_conv snd_conv ms
    using find_function_loop_None [of fs qn] find_function_loop_Some [of fs qn]
    by blast
qed

theorem find_function_first_match_witness:
  "fst (find_function
         (foldl register_function empty_unit [fn_backend_fails, fn_forward, fn_forward_again])
         ''__torch__.M.forward'') = Some fn_forward
   \<and> fst (find_function
         (foldl register_function empty_unit [fn_backend_fails, fn_forward, fn_forward_again])
         ''__torch__.M.missing'') = None
   \<and> (\<exists>i. i < length [fn_backend_fails, fn_forward, fn_forward_again]
         \<and> [fn_backend_fails, fn_forward, fn_forward_again] ! i = fn_forward
         \<and> fn_qualname fn_forward = ''__torch__.M.forward'')"
proof -
  let ?fs = "[fn_backend_fails, fn_forward, fn_forward_again]"
  have some: "fst (find_function (foldl register_function empty_unit ?fs)
                ''__torch__.M.forward'') = Some fn_forward"
    by (simp add: find_function_def register_function_def empty_unit_def
        fn_backend_fails_def fn_forward_def)
  have "\<forall>f \<in> set ?fs. fn_qualname f \<noteq> ''__torch__.M.missing''"
    by (simp add: fn_backend_fails_def fn_forward_def fn_forward_again_def)
  with find_function_first_match [of ?fs "''__torch__.M.missing''"]
  have none: "fst (find_function (foldl register_function empty_unit ?fs)
                ''__torch__.M.missing'') = None"
    by blast
  from find_function_first_match [of ?fs "''__torch__.M.forward''"] some
  have "\<exists>i < length ?fs. ?fs ! i = fn_forward
          \<and> fn_qualname fn_forward = ''__torch__.M.forward''
          \<and> (\<forall>j < i. fn_qualname (?fs ! j) \<noteq> ''__torch__.M.forward'')"
    by blast
  then have "\<exists>i. i < length ?fs \<and> ?fs ! i = fn_forward
          \<and> fn_qualname fn_forward = ''__torch__.M.forward''"
    by blast
  with some none show ?thesis by blast
qed
section \<open>The instrumented call: what a run does\<close>

lemma Method_run_returns:
  assumes "fn_run (method_function m) (self m # stack) = (stack2, None)"
  shows "Method_run rt m k stack w =
     (Returns (), stack2,
      w\<lparr>trace := trace w
          @ (if observer w then [enter_event m k] else [])
          @ [DebugInfoInstalled (installed_info m), FunctionRun (fn_name (method_function m))]
          @ (if observer w then [OnExitRunMethod k] else [])
          @ [DebugInfoReleased]\<rparr>)"
  using assms
  by (simp add: Method_run_def Let_def emit_def DebugInfoGuard_enter_def
      DebugInfoGuard_exit_def self_def installed_info_def enter_event_def)

lemma Method_run_throws:
  assumes "fn_run (method_function m) (self m # stack) = (stack2, Some e)"
  shows "Method_run rt m k stack w =
     (Throws (fst (catch_exception rt m e)), stack2,
      w\<lparr>trace := trace w
          @ (if observer w then [enter_event m k] else [])
          @ [DebugInfoInstalled (installed_info m), FunctionRun (fn_name (method_function m))]
          @ (if observer w
             then [OnFailRunMethod k (fail_message rt m (snd (catch_exception rt m e)))]
             else [])
          @ [DebugInfoReleased]\<rparr>)"
  using assms
  by (cases "catch_exception rt m e")
     (simp add: Method_run_def Let_def emit_def failure_guard_def fail_message_def
        DebugInfoGuard_enter_def DebugInfoGuard_exit_def self_def installed_info_def
        enter_event_def)

lemma new_events_append:
  "new_events w (w\<lparr>trace := trace w @ evs\<rparr>) = evs"
  by (simp add: new_events_def)

lemma fn_run_cases:
  obtains stack2 where "fn_run f st = (stack2, None)"
  | stack2 e where "fn_run f st = (stack2, Some e)"
proof (cases "fn_run f st")
  case (Pair a b)
  then show ?thesis using that by (cases b) auto
qed

lemma TORCH_RETHROW_type:
  "type_of_exn (TORCH_RETHROW rt e) = type_of_exn e"
  by (cases e) (simp_all add: TORCH_RETHROW_def split: option.split)

lemma TORCH_RETHROW_msg:
  "exn_msg (TORCH_RETHROW rt e) = exn_msg e"
  by (cases e) (simp_all add: TORCH_RETHROW_def split: option.split)

lemma TORCH_RETHROW_backend:
  "TORCH_RETHROW rt (BackendRuntimeException msg ctx hs)
     = BackendRuntimeException msg (ctx @ rethrow_contexts rt) hs"
  by (simp add: TORCH_RETHROW_def rethrow_contexts_def split: option.split)

lemma TORCH_RETHROW_error:
  "TORCH_RETHROW rt (Error msg ctx) = Error msg (ctx @ rethrow_contexts rt)"
  by (simp add: TORCH_RETHROW_def rethrow_contexts_def split: option.split)

lemma catch_exception_type:
  "type_of_exn (fst (catch_exception rt m e)) = type_of_exn e"
  by (cases e) (simp_all add: Let_def TORCH_RETHROW_type)

lemma catch_exception_msg:
  "exn_msg (fst (catch_exception rt m e)) = exn_msg e"
  by (cases e) (simp_all add: Let_def TORCH_RETHROW_msg)

lemma catch_exception_other:
  "type_of_exn e = OtherExceptionT \<Longrightarrow> fst (catch_exception rt m e) = e"
  by (cases e) simp_all

lemma catch_exception_backend:
  assumes "symbolicate rt" "type_of_exn e = BackendRuntimeExceptionT"
  shows "exn_handles (fst (catch_exception rt m e))
           = exn_handles e @ [fn_getExceptionDebugHandle (method_function m)]"
    and "exn_context (fst (catch_exception rt m e))
           = exn_context e
             @ [getSourceDebugStrings (m_debug_table (method_owner m))
                  (exn_handles e @ [fn_getExceptionDebugHandle (method_function m)])
                  (getTopModuleTypeName (method_owner m))]
             @ rethrow_contexts rt"
  using assms by (cases e; simp add: Let_def TORCH_RETHROW_backend)+

lemma catch_exception_error:
  assumes "symbolicate rt" "type_of_exn e = ErrorT"
  shows "exn_context (fst (catch_exception rt m e))
           = exn_context e
             @ [getSourceDebugString (m_debug_table (method_owner m))
                  (fn_getExceptionDebugHandle (method_function m))
                  (getTopModuleTypeName (method_owner m))]
             @ rethrow_contexts rt"
  using assms by (cases e) (simp_all add: Let_def TORCH_RETHROW_error)

lemma catch_exception_backend_plain:
  assumes "\<not> symbolicate rt" "type_of_exn e = BackendRuntimeExceptionT"
  shows "exn_handles (fst (catch_exception rt m e)) = exn_handles e"
    and "exn_context (fst (catch_exception rt m e)) = exn_context e @ rethrow_contexts rt"
  using assms by (cases e; simp add: Let_def TORCH_RETHROW_backend)+

lemma catch_exception_error_plain:
  assumes "\<not> symbolicate rt" "type_of_exn e = ErrorT"
  shows "exn_context (fst (catch_exception rt m e)) = exn_context e @ rethrow_contexts rt"
  using assms by (cases e) (simp_all add: Let_def TORCH_RETHROW_error)

section \<open>Observer notifications\<close>

text \<open>
  Claim C1, as stated, at a call with no observer registered: the three guards on the
  observer pointer skip every notification, so neither "exit" nor "fail" fires.
\<close>

theorem run_without_observer_counterexample:
  "filter (\<lambda>ev. is_exit ev \<or> is_fail ev)
     (new_events world_unobserved
        (snd (snd (Method_run runtime_plain (method_ex fn_forward) 42 [] world_unobserved)))) = []
   \<and> length (filter is_exit
        (new_events world_unobserved
           (snd (snd (Method_run runtime_plain (method_ex fn_forward) 42 [] world_unobserved)))))
     + length (filter is_fail
        (new_events world_unobserved
           (snd (snd (Method_run runtime_plain (method_ex fn_forward) 42 [] world_unobserved)))))
     \<noteq> 1"
  by (simp add: Method_run_def Let_def emit_def DebugInfoGuard_enter_def DebugInfoGuard_exit_def
      new_events_def world_unobserved_def method_ex_def fn_forward_def metadata_at_def)

text \<open>
  Claim C1, amended. With an observer registered, every run of a method appends exactly
  the events "enter", debug info installed, function run, one notification, debug info
  released. The one notification is "exit" when the function returns and "fail" when it
  raises an exception of any type; so exactly one of the two fires, and "enter" comes
  before the function runs. With no observer registered the run makes no notification.
\<close>

theorem run_notifies_exactly_once:
  "(observer w \<longrightarrow>
      (\<exists>note.
         new_events w (snd (snd (Method_run rt m k stack w)))
           = [enter_event m k, DebugInfoInstalled (installed_info m),
              FunctionRun (fn_name (method_function m)), note, DebugInfoReleased]
         \<and> ((fst (Method_run rt m k stack w) = Returns () \<and> note = OnExitRunMethod k)
            \<or> (\<exists>e msg. fst (Method_run rt m k stack w) = Throws e
                  \<and> note = OnFailRunMethod k msg)))
      \<and> length (filter is_exit (new_events w (snd (snd (Method_run rt m k stack w)))))
          + length (filter is_fail (new_events w (snd (snd (Method_run rt m k stack w))))) = 1)
   \<and> (\<not> observer w \<longrightarrow>
        new_events w (snd (snd (Method_run rt m k stack w)))
          = [DebugInfoInstalled (installed_info m), FunctionRun (fn_name (method_function m)),
             DebugInfoReleased])"
proof (cases rule: fn_run_cases [of "method_function m" "self m # stack"])
  case (1 stack2)
  from Method_run_returns [OF 1, of rt k w]
  have "new_events w (snd (snd (Method_run rt m k stack w)))
          = (if observer w then [enter_event m k] else [])
            @ [DebugInfoInstalled (installed_info m), FunctionRun (fn_name (method_function m))]
            @ (if observer w then [OnExitRunMethod k] else [])
            @ [DebugInfoReleased]"
    and "fst (Method_run rt m k stack w) = Returns ()"
    by (simp_all add: new_events_append)
  then show ?thesis by (simp add: enter_event_def)
next
  case (2 stack2 e)
  from Method_run_throws [OF 2, of rt k w]
  have "new_events w (snd (snd (Method_run rt m k stack w)))
          = (if observer w then [enter_event m k] else [])
            @ [DebugInfoInstalled (installed_info m), FunctionRun (fn_name (method_function m))]
            @ (if observer w
               then [OnFailRunMethod k (fail_message rt m (snd (catch_exception rt m e)))]
               else [])
            @ [DebugInfoReleased]"
    and "fst (Method_run rt m k stack w) = Throws (fst (catch_exception rt m e))"
    by (simp_all add: new_events_append)
  then show ?thesis by (simp add: enter_event_def)
qed

theorem run_notifies_exactly_once_witness:
  "observer world_observed
   \<and> length (filter is_exit
        (new_events world_observed
           (snd (snd (Method_run runtime_sym (method_ex fn_error_fails) 42 [] world_observed)))))
     + length (filter is_fail
        (new_events world_observed
           (snd (snd (Method_run runtime_sym (method_ex fn_error_fails) 42 [] world_observed)))))
     = 1
   \<and> fst (Method_run runtime_sym (method_ex fn_error_fails) 42 [] world_observed)
     = Throws (Error ''bad shape'' [''at M''])"
proof -
  have obs: "observer world_observed"
    by (simp add: world_observed_def)
  have "fst (Method_run runtime_sym (method_ex fn_error_fails) 42 [] world_observed)
          = Throws (Error ''bad shape'' [''at M''])"
    by (simp add: Method_run_def Let_def method_ex_def fn_error_fails_def runtime_sym_def
        module_ex_def table_ex_def object_ex_def TORCH_RETHROW_def)
  with obs run_notifies_exactly_once [of world_observed runtime_sym "method_ex fn_error_fails" 42 "[]"]
  show ?thesis by blast
qed

section \<open>Exceptions are annotated and re-raised\<close>

text \<open>
  Claim C2, as stated, in builds without \<^verbatim>\<open>SYMBOLICATE_MOBILE_DEBUG_HANDLE\<close>: the
  backend-runtime exception is re-raised with its handle list as it was, the function's
  exception debug handle 8 is not pushed and no symbolication is attached. In the build
  that keeps error messages the only context is the empty one the re-raising macro adds;
  in the build that strips them there is none.
\<close>

theorem rethrow_without_symbolication_counterexample:
  "fst (Method_run runtime_messages_plain (method_ex fn_backend_fails) 42 [] world_observed)
     = Throws (BackendRuntimeException ''boom'' [''''] [3])
   \<and> fst (Method_run runtime_plain (method_ex fn_backend_fails) 42 [] world_observed)
     = Throws (BackendRuntimeException ''boom'' [] [3])
   \<and> fn_getExceptionDebugHandle fn_backend_fails = 8"
  by (simp add: Method_run_def Let_def method_ex_def fn_backend_fails_def runtime_plain_def
      runtime_messages_plain_def TORCH_RETHROW_def)

text \<open>
  Claim C2, amended. When the function raises, the run raises the same exception, with its
  type and message as they were, after running the function once. In a build with
  symbolication a backend-runtime exception has the function's exception debug handle
  pushed onto its handles and the symbolication of all its handles attached as context,
  and a generic error has the symbolication of the function's handle attached as context.
  In a build without symbolication no handle is pushed and no symbolication is attached.
  In both builds the re-raising macro then adds its own context to a backend-runtime
  exception and to a generic error, unless the build strips error messages. An exception
  that is not a framework error is re-raised as it was.
\<close>

theorem rethrow_annotated:
  assumes "fn_run (method_function m) (self m # stack) = (stack2, Some e)"
  shows "\<exists>e'. fst (Method_run rt m k stack w) = Throws e'
      \<and> type_of_exn e' = type_of_exn e
      \<and> exn_msg e' = exn_msg e
      \<and> (symbolicate rt \<and> type_of_exn e = BackendRuntimeExceptionT \<longrightarrow>
           exn_handles e' = exn_handles e @ [fn_getExceptionDebugHandle (method_function m)]
           \<and> exn_context e'
               = exn_context e
                 @ [getSourceDebugStrings (m_debug_table (method_owner m))
                      (exn_handles e @ [fn_getExceptionDebugHandle (method_function m)])
                      (getTopModuleTypeName (method_owner m))]
                 @ rethrow_contexts rt)
      \<and> (symbolicate rt \<and> type_of_exn e = ErrorT \<longrightarrow>
           exn_context e'
             = exn_context e
               @ [getSourceDebugString (m_debug_table (method_owner m))
                    (fn_getExceptionDebugHandle (method_function m))
                    (getTopModuleTypeName (method_owner m))]
               @ rethrow_contexts rt)
      \<and> (\<not> symbolicate rt \<and> type_of_exn e = BackendRuntimeExceptionT \<longrightarrow>
           exn_handles e' = exn_handles e
           \<and> exn_context e' = exn_context e @ rethrow_contexts rt)
      \<and> (\<not> symbolicate rt \<and> type_of_exn e = ErrorT \<longrightarrow>
           exn_context e' = exn_context e @ rethrow_contexts rt)
      \<and> (type_of_exn e = OtherExceptionT \<longrightarrow> e' = e)
      \<and> length (filter (\<lambda>ev. ev = FunctionRun (fn_name (method_function m)))
                  (new_events w (snd (snd (Method_run rt m k stack w))))) = 1"
proof -
  let ?e' = "fst (catch_exception rt m e)"
  have run: "fst (Method_run rt m k stack w) = Throws ?e'"
    using Method_run_throws [OF assms, of rt k w] by simp
  have once: "length (filter (\<lambda>ev. ev = FunctionRun (fn_name (method_function m)))
                  (new_events w (snd (snd (Method_run rt m k stack w))))) = 1"
    using Method_run_throws [OF assms, of rt k w]
    by (simp add: new_events_append enter_event_def)
  have other: "type_of_exn e = OtherExceptionT \<longrightarrow> ?e' = e"
    using catch_exception_other [of e rt m] by blast
  from run once other show ?thesis
    using catch_exception_type [of rt m e] catch_exception_msg [of rt m e]
      catch_exception_backend [of rt e m] catch_exception_error [of rt e m]
      catch_exception_backend_plain [of rt e m] catch_exception_error_plain [of rt e m]
    by blast
qed

theorem rethrow_annotated_witness:
  "fn_run (method_function (method_ex fn_backend_fails)) (self (method_ex fn_backend_fails) # [])
     = ([self (method_ex fn_backend_fails)], Some (BackendRuntimeException ''boom'' [] [3]))
   \<and> fst (Method_run runtime_messages_sym (method_ex fn_backend_fails) 42 [] world_observed)
     = Throws (BackendRuntimeException ''boom'' [''stack of M'', ''''] [3, 8])"
proof -
  have raised: "fn_run (method_function (method_ex fn_backend_fails))
                  (self (method_ex fn_backend_fails) # [])
     = ([self (method_ex fn_backend_fails)], Some (BackendRuntimeException ''boom'' [] [3]))"
    by (simp add: method_ex_def fn_backend_fails_def)
  have sym: "symbolicate runtime_messages_sym"
    by (simp add: runtime_messages_sym_def)
  have added: "rethrow_contexts runtime_messages_sym = ['''']"
    by (simp add: rethrow_contexts_def runtime_messages_sym_def)
  from rethrow_annotated [OF raised, of runtime_messages_sym 42 world_observed]
  obtain e' where e':
    "fst (Method_run runtime_messages_sym (method_ex fn_backend_fails) 42 [] world_observed)
        = Throws e'"
    "type_of_exn e' = BackendRuntimeExceptionT" "exn_msg e' = ''boom''"
    "exn_handles e' = [3] @ [fn_getExceptionDebugHandle (method_function (method_ex fn_backend_fails))]"
    "exn_context e' = [] @ [getSourceDebugStrings (m_debug_table (method_owner (method_ex fn_backend_fails)))
          ([3] @ [fn_getExceptionDebugHandle (method_function (method_ex fn_backend_fails))])
          (getTopModuleTypeName (method_owner (method_ex fn_backend_fails)))]
          @ rethrow_contexts runtime_messages_sym"
    using sym by auto
  then have "e' = BackendRuntimeException ''boom'' [''stack of M'', ''''] [3, 8]"
    unfolding added
    by (cases e')
       (simp_all add: method_ex_def fn_backend_fails_def module_ex_def table_ex_def object_ex_def)
  with raised e'(1) show ?thesis by simp
qed

section \<open>The debug-info scope\<close>

text \<open>
  Claim C3, as stated, at a successful call with an observer registered: the first event
  of the run is the "enter" notification and the debug info is installed only after it.
\<close>

theorem enter_before_debug_info_counterexample:
  "take 2 (new_events world_observed
      (snd (snd (Method_run runtime_sym (method_ex fn_forward) 42 [] world_observed))))
     = [OnEnterRunMethod [(''model_name'', ''net'')] 42 ''forward'',
        DebugInfoInstalled \<lparr>model_name = ''net'', method_name = ''forward''\<rparr>]"
  by (simp add: Method_run_def Let_def emit_def DebugInfoGuard_enter_def DebugInfoGuard_exit_def
      new_events_def world_observed_def method_ex_def fn_forward_def metadata_at_def
      module_ex_def)

text \<open>
  Claim C3, amended. In every run the debug info, carrying the model name and the method
  name, is installed after the "enter" notification (when there is an observer) and before
  the function runs; it stays installed until after the "exit" or "fail" notification, and
  its release is the last event of the run on every path, leaving the stack of installed
  debug infos as it was before the call.
\<close>

theorem debug_info_brackets_run:
  "\<exists>mid.
      new_events w (snd (snd (Method_run rt m k stack w)))
        = (if observer w then [enter_event m k] else [])
          @ [DebugInfoInstalled (installed_info m), FunctionRun (fn_name (method_function m))]
          @ mid @ [DebugInfoReleased]
      \<and> filter (\<lambda>ev. \<not> (is_exit ev \<or> is_fail ev)) mid = []
      \<and> model_name (installed_info m) = metadata_at (m_metadata (method_owner m)) ''model_name''
      \<and> method_name (installed_info m) = fn_name (method_function m)
      \<and> debug_info (snd (snd (Method_run rt m k stack w))) = debug_info w"
proof (cases rule: fn_run_cases [of "method_function m" "self m # stack"])
  case (1 stack2)
  let ?notes = "if observer w then [OnExitRunMethod k] else []"
  from Method_run_returns [OF 1, of rt k w]
  have "new_events w (snd (snd (Method_run rt m k stack w)))
          = (if observer w then [enter_event m k] else [])
            @ [DebugInfoInstalled (installed_info m), FunctionRun (fn_name (method_function m))]
            @ ?notes @ [DebugInfoReleased]"
    and "debug_info (snd (snd (Method_run rt m k stack w))) = debug_info w"
    by (simp_all add: new_events_append)
  moreover have "filter (\<lambda>ev. \<not> (is_exit ev \<or> is_fail ev)) ?notes = []"
    by simp
  ultimately show ?thesis
    unfolding installed_info_def by (intro exI [of _ ?notes]) simp
next
  case (2 stack2 e)
  let ?notes = "if observer w
                then [OnFailRunMethod k (fail_message rt m (snd (catch_exception rt m e)))]
                else []"
  from Method_run_throws [OF 2, of rt k w]
  have "new_events w (snd (snd (Method_run rt m k stack w)))
          = (if observer w then [enter_event m k] else [])
            @ [DebugInfoInstalled (installed_info m), FunctionRun (fn_name (method_function m))]
            @ ?notes @ [DebugInfoReleased]"
    and "debug_info (snd (snd (Method_run rt m k stack w))) = debug_info w"
    by (simp_all add: new_events_append)
  moreover have "filter (\<lambda>ev. \<not> (is_exit ev \<or> is_fail ev)) ?notes = []"
    by simp
  ultimately show ?thesis
    unfolding installed_info_def by (intro exI [of _ ?notes]) simp
qed

theorem debug_info_brackets_run_witness:
  "\<exists>mid.
      new_events world_observed
        (snd (snd (Method_run runtime_sym (method_ex fn_backend_fails) 42 [] world_observed)))
        = [OnEnterRunMethod [(''model_name'', ''net'')] 42 ''delegate'',
           DebugInfoInstalled \<lparr>model_name = ''net'', method_name = ''delegate''\<rparr>,
           FunctionRun ''delegate'']
          @ mid @ [DebugInfoReleased]
      \<and> debug_info
           (snd (snd (Method_run runtime_sym (method_ex fn_backend_fails) 42 [] world_observed)))
         = []"
proof -
  let ?m = "method_ex fn_backend_fails"
  let ?w' = "snd (snd (Method_run runtime_sym ?m 42 [] world_observed))"
  from debug_info_brackets_run [of world_observed runtime_sym ?m 42 "[]"]
  obtain mid where
    ev: "new_events world_observed ?w'
          = (if observer world_observed then [enter_event ?m 42] else [])
            @ [DebugInfoInstalled (installed_info ?m), FunctionRun (fn_name (method_function ?m))]
            @ mid @ [DebugInfoReleased]"
    and di: "debug_info ?w' = debug_info world_observed"
    by blast
  have enter: "(if observer world_observed then [enter_event ?m 42] else [])
                 = [OnEnterRunMethod [(''model_name'', ''net'')] 42 ''delegate'']"
    by (simp add: world_observed_def enter_event_def method_ex_def fn_backend_fails_def
        module_ex_def)
  have info: "installed_info ?m = \<lparr>model_name = ''net'', method_name = ''delegate''\<rparr>"
    by (simp add: installed_info_def method_ex_def fn_backend_fails_def module_ex_def
        metadata_at_def)
  have name: "fn_name (method_function ?m) = ''delegate''"
    by (simp add: method_ex_def fn_backend_fails_def)
  have empty: "debug_info world_observed = []"
    by (simp add: world_observed_def)
  from ev di show ?thesis
    unfolding enter info name empty by auto
qed

section \<open>Calling a method as a function\<close>

text \<open>
  Claim C4. \<^verbatim>\<open>Method::operator()\<close> runs \<^verbatim>\<open>Method::run\<close> on its argument list, with the
  same effects on the world. When the run returns and leaves a non-empty stack, the call
  returns the value at the front of that stack; when the run returns and leaves the stack
  empty, in particular when the function leaves it empty, the internal assertion fails.
  An exception of the run is the exception of the call.
\<close>

theorem call_returns_front:
  "snd (Method_call rt m k args w) = snd (snd (Method_run rt m k args w))
   \<and> (fst (Method_run rt m k args w) = Returns ()
        \<and> fst (snd (Method_run rt m k args w)) \<noteq> []
      \<longrightarrow> fst (Method_call rt m k args w) = Returns (hd (fst (snd (Method_run rt m k args w)))))
   \<and> (fst (Method_run rt m k args w) = Returns ()
        \<and> fst (snd (Method_run rt m k args w)) = []
      \<longrightarrow> fst (Method_call rt m k args w) = InternalAssertFailed ''!stack.empty()'')
   \<and> (fn_run (method_function m) (self m # args) = ([], None)
      \<longrightarrow> fst (Method_call rt m k args w) = InternalAssertFailed ''!stack.empty()'')
   \<and> (\<forall>e. fst (Method_run rt m k args w) = Throws e
      \<longrightarrow> fst (Method_call rt m k args w) = Throws e)"
proof -
  obtain res st w' where run: "Method_run rt m k args w = (res, st, w')"
    by (cases "Method_run rt m k args w") auto
  have world: "snd (Method_call rt m k args w) = snd (snd (Method_run rt m k args w))"
    using run by (cases res; cases st) (simp_all add: Method_call_def)
  have front: "fst (Method_run rt m k args w) = Returns ()
        \<and> fst (snd (Method_run rt m k args w)) \<noteq> []
      \<longrightarrow> fst (Method_call rt m k args w) = Returns (hd (fst (snd (Method_run rt m k args w))))"
    using run by (cases st) (auto simp: Method_call_def)
  have empty: "fst (Method_run rt m k args w) = Returns ()
        \<and> fst (snd (Method_run rt m k args w)) = []
      \<longrightarrow> fst (Method_call rt m k args w) = InternalAssertFailed ''!stack.empty()''"
    using run by (auto simp: Method_call_def)
  have throws: "\<forall>e. fst (Method_run rt m k args w) = Throws e
      \<longrightarrow> fst (Method_call rt m k args w) = Throws e"
    using run by (auto simp: Method_call_def)
  have "fn_run (method_function m) (self m # args) = ([], None)
      \<longrightarrow> fst (Method_call rt m k args w) = InternalAssertFailed ''!stack.empty()''"
  proof
    assume "fn_run (method_function m) (self m # args) = ([], None)"
    from Method_run_returns [OF this, of rt k w] show
      "fst (Method_call rt m k args w) = InternalAssertFailed ''!stack.empty()''"
      by (simp add: Method_call_def)
  qed
  with world front empty throws show ?thesis by blast
qed

theorem call_returns_front_witness:
  "fst (Method_run runtime_sym (method_ex fn_forward) 42 [IInt 5] world_observed) = Returns ()
   \<and> fst (snd (Method_run runtime_sym (method_ex fn_forward) 42 [IInt 5] world_observed)) = [IInt 1]
   \<and> fst (Method_call runtime_sym (method_ex fn_forward) 42 [IInt 5] world_observed)
       = Returns (IInt 1)
   \<and> fn_run (method_function (method_ex fn_leaves_nothing))
         (self (method_ex fn_leaves_nothing) # [IInt 5]) = ([], None)
   \<and> fst (Method_call runtime_sym (method_ex fn_leaves_nothing) 42 [IInt 5] world_observed)
       = InternalAssertFailed ''!stack.empty()''"
proof -
  have ret: "fst (Method_run runtime_sym (method_ex fn_forward) 42 [IInt 5] world_observed)
               = Returns ()"
    and st: "fst (snd (Method_run runtime_sym (method_ex fn_forward) 42 [IInt 5] world_observed))
               = [IInt 1]"
    by (simp_all add: Method_run_def Let_def method_ex_def fn_forward_def)
  have leaves: "fn_run (method_function (method_ex fn_leaves_nothing))
         (self (method_ex fn_leaves_nothing) # [IInt 5]) = ([], None)"
    by (simp add: method_ex_def fn_leaves_nothing_def)
  from call_returns_front [of runtime_sym "method_ex fn_forward" 42 "[IInt 5]" world_observed]
    ret st
  have "fst (Method_call runtime_sym (method_ex fn_forward) 42 [IInt 5] world_observed)
       = Returns (IInt 1)"
    by simp
  moreover
  from call_returns_front
    [of runtime_sym "method_ex fn_leaves_nothing" 42 "[IInt 5]" world_observed] leaves
  have "fst (Method_call runtime_sym (method_ex fn_leaves_nothing) 42 [IInt 5] world_observed)
       = InternalAssertFailed ''!stack.empty()''"
    by simp
  ultimately show ?thesis using ret st leaves by blast
qed

section \<open>The stack after a failed run\<close>

text \<open>
  Claim C10, as stated, at a function that takes the root object off the stack and then
  raises: the run exits by the exception and the caller's stack is what it was before the
  call.
\<close>

theorem failed_run_stack_counterexample:
  "fst (Method_run runtime_plain (method_ex fn_drops_self) 42 [IInt 5] world_observed)
     = Throws (Error ''bad shape'' [])
   \<and> fst (snd (Method_run runtime_plain (method_ex fn_drops_self) 42 [IInt 5] world_observed))
     = [IInt 5]"
  by (simp add: Method_run_def Let_def method_ex_def fn_drops_self_def runtime_plain_def
      TORCH_RETHROW_def)

text \<open>
  Claim C10, amended. When a run exits by an exception, the caller's stack is the stack the
  function left behind after it was handed the caller's stack with the root object in
  front: neither handler and no guard removes the root object or restores the stack. So
  when the function raises without touching the stack, the caller finds the root object in
  front of its own values, and the stack is not what it was before the call.
\<close>

theorem failed_run_keeps_self:
  assumes "fst (Method_run rt m k stack w) = Throws e"
  shows "fst (snd (Method_run rt m k stack w)) = fst (fn_run (method_function m) (self m # stack))
     \<and> self m = IObject (m_object (method_owner m))
     \<and> (fst (fn_run (method_function m) (self m # stack)) = self m # stack \<longrightarrow>
          fst (snd (Method_run rt m k stack w)) = self m # stack
          \<and> fst (snd (Method_run rt m k stack w)) \<noteq> stack)"
proof (cases rule: fn_run_cases [of "method_function m" "self m # stack"])
  case (1 stack2)
  from Method_run_returns [OF 1, of rt k w] assms show ?thesis by simp
next
  case (2 stack2 e0)
  from Method_run_throws [OF 2, of rt k w] 2 show ?thesis
    by (simp add: self_def)
qed

theorem failed_run_keeps_self_witness:
  "fst (Method_run runtime_sym (method_ex fn_error_fails) 42 [IInt 5] world_observed)
     = Throws (Error ''bad shape'' [''at M''])
   \<and> fst (snd (Method_run runtime_sym (method_ex fn_error_fails) 42 [IInt 5] world_observed))
     = [IObject object_ex, IInt 5]"
proof -
  have thrown: "fst (Method_run runtime_sym (method_ex fn_error_fails) 42 [IInt 5] world_observed)
     = Throws (Error ''bad shape'' [''at M''])"
    by (simp add: Method_run_def Let_def method_ex_def fn_error_fails_def runtime_sym_def
        module_ex_def table_ex_def object_ex_def TORCH_RETHROW_def)
  have "fst (fn_run (method_function (method_ex fn_error_fails))
          (self (method_ex fn_error_fails) # [IInt 5])) = [IObject object_ex, IInt 5]"
    by (simp add: method_ex_def fn_error_fails_def self_def module_ex_def)
  with failed_run_keeps_self [OF thrown] thrown show ?thesis by simp
qed

section \<open>Training mode\<close>





lemma visited_slots_update_bool:
  "visited_slots (sl[i := (a, IBool b)]) = visited_slots (sl[i := (a, IBool c)])"
proof (induction sl arbitrary: i)
  case Nil
  then show ?case by simp
next
  case (Cons p sl)
  obtain n v where p: "p = (n, v)" by (cases p)
  show ?case
  proof (cases i)
    case 0
    then show ?thesis by simp
  next
    case (Suc j)
    with Cons.IH [of j] p show ?thesis
      by (simp split: ivalue.split)
  qed
qed





lemma set_train_outcomes:
  "(\<exists>obj'. set_train_recurse obj on = Returns obj')
     \<or> set_train_recurse obj on = InternalAssertFailed training_not_found"
  "(\<exists>sl'. set_train_loop sl on = Returns sl')
     \<or> set_train_loop sl on = InternalAssertFailed training_not_found"
proof (induction obj on and sl on rule: set_train_recurse_set_train_loop.induct)
  case (1 obj on)
  show ?case
  proof (cases "findAttributeSlot (slots obj) ''training''")
    case None
    then show ?thesis by simp
  next
    case (Some slot)
    from "1" [OF Some] Some show ?thesis by auto
  qed
next
  case (2 on)
  then show ?case by simp
next
  case (3 n slot rest on)
  show ?case
  proof (cases slot)
    case (IObject child)
    from "3"(5) [OF IObject] show ?thesis
    proof
      assume "\<exists>child'. set_train_recurse child on = Returns child'"
      then obtain child' where c: "set_train_recurse child on = Returns child'" ..
      from "3"(6) [OF IObject c] IObject c show ?thesis by auto
    next
      assume "set_train_recurse child on = InternalAssertFailed training_not_found"
      with IObject show ?thesis by simp
    qed
  next
    case INone
    with "3"(1) [OF INone] show ?thesis by auto
  next
    case (IBool b)
    with "3"(2) [OF IBool] show ?thesis by auto
  next
    case (IInt i)
    with "3"(3) [OF IInt] show ?thesis by auto
  next
    case (ITensor t)
    with "3"(4) [OF ITensor] show ?thesis by auto
  qed
qed

lemma set_train_fails:
  "(\<exists>n \<in> set (visited obj). \<not> has_training n) \<Longrightarrow>
     set_train_recurse obj on = InternalAssertFailed training_not_found"
  "(\<exists>n \<in> set (visited_slots sl). \<not> has_training n) \<Longrightarrow>
     set_train_loop sl on = InternalAssertFailed training_not_found"
proof (induction obj on and sl on rule: set_train_recurse_set_train_loop.induct)
  case (1 obj on)
  obtain ty sl where obj: "obj = Object ty sl" by (cases obj)
  show ?case
  proof (cases "findAttributeSlot (slots obj) ''training''")
    case None
    then show ?thesis by simp
  next
    case (Some slot)
    let ?upd = "sl[slot := (fst (sl ! slot), IBool on)]"
    have upd: "slots (setSlot obj slot (IBool on)) = ?upd"
      using obj by (simp add: setSlot_def)
    from Some have "has_training obj"
      by (simp add: has_training_def)
    with "1.prems" Some obj
    have "\<exists>n \<in> set (visited_slots (sl[slot := (fst (sl ! slot), IBool True)])). \<not> has_training n"
      by (auto simp: setSlot_def)
    then have "\<exists>n \<in> set (visited_slots ?upd). \<not> has_training n"
      using visited_slots_update_bool [of sl slot "fst (sl ! slot)" on True] by simp
    with "1.IH" [OF Some] upd
    have "set_train_loop ?upd on = InternalAssertFailed training_not_found"
      by simp
    with Some upd show ?thesis by simp
  qed
next
  case (2 on)
  then show ?case by simp
next
  case (3 n slot rest on)
  show ?case
  proof (cases slot)
    case (IObject child)
    show ?thesis
    proof (cases "\<exists>n \<in> set (visited child). \<not> has_training n")
      case True
      from "3.IH"(5) [OF IObject True] IObject show ?thesis by simp
    next
      case False
      with "3.prems" IObject have r: "\<exists>n \<in> set (visited_slots rest). \<not> has_training n"
        by auto
      from set_train_outcomes(1) [of child on] show ?thesis
      proof
        assume "\<exists>child'. set_train_recurse child on = Returns child'"
        then obtain child' where c: "set_train_recurse child on = Returns child'" ..
        from "3.IH"(6) [OF IObject c r] IObject c show ?thesis by simp
      next
        assume "set_train_recurse child on = InternalAssertFailed training_not_found"
        with IObject show ?thesis by simp
      qed
    qed
  next
    case INone
    with "3.prems" "3.IH"(1) [OF INone] show ?thesis by auto
  next
    case (IBool b)
    with "3.prems" "3.IH"(2) [OF IBool] show ?thesis by auto
  next
    case (IInt i)
    with "3.prems" "3.IH"(3) [OF IInt] show ?thesis by auto
  next
    case (ITensor t)
    with "3.prems" "3.IH"(4) [OF ITensor] show ?thesis by auto
  qed
qed



text \<open>
  Claim C6. When some node that \<^verbatim>\<open>train\<close> visits has no \<^verbatim>\<open>training\<close> attribute,
  \<^verbatim>\<open>train(on)\<close> fails the internal assertion, for either value of \<^verbatim>\<open>on\<close>; and when
  the root has no \<^verbatim>\<open>training\<close> attribute, \<^verbatim>\<open>is_training()\<close> returns true.
\<close>

theorem train_asserts_training_attribute:
  "((\<exists>n \<in> set (visited (m_object m)). \<not> has_training n) \<longrightarrow>
      train m on = InternalAssertFailed training_not_found)
   \<and> (\<not> has_training (m_object m) \<longrightarrow> is_training m = Returns True)"
proof -
  have "(\<exists>n \<in> set (visited (m_object m)). \<not> has_training n) \<longrightarrow>
      train m on = InternalAssertFailed training_not_found"
    using set_train_fails(1) [of "m_object m" on] by (simp add: train_def)
  moreover have "\<not> has_training (m_object m) \<longrightarrow> is_training m = Returns True"
    by (simp add: has_training_def is_training_def)
  ultimately show ?thesis by blast
qed

theorem train_asserts_training_attribute_witness:
  "list_ex (\<lambda>n. \<not> has_training n) (visited (m_object module_child_untrained))
   \<and> train module_child_untrained False = InternalAssertFailed training_not_found
   \<and> \<not> has_training (m_object module_no_training)
   \<and> is_training module_no_training = Returns True"
proof -
  have lacks: "\<exists>n \<in> set (visited (m_object module_child_untrained)). \<not> has_training n"
    by (simp add: module_child_untrained_def has_training_def setSlot_def)
  have root: "\<not> has_training (m_object module_no_training)"
    by (simp add: module_no_training_def has_training_def)
  from train_asserts_training_attribute [of module_child_untrained False] lacks
  have "train module_child_untrained False = InternalAssertFailed training_not_found"
    by blast
  moreover
  from train_asserts_training_attribute [of module_no_training True] root
  have "is_training module_no_training = Returns True"
    by blast
  ultimately show ?thesis using lacks root
    by (simp add: list_ex_iff)
qed

section \<open>Named parameters\<close>

lemma dotted_name:
  "(if length parent = 0 then parent else parent @ ''.'') @ attr = dotted parent attr"
  by (simp add: dotted_def)

lemma slot_named_params_grad_slots:
  "slot_named_params_recurse obj params parent = params ++ map_of (rev (grad_slots parent obj))"
  "slot_named_params_loop sl params parent = params ++ map_of (rev (grad_slots_list parent sl))"
proof (induction obj params parent and sl params parent
    rule: slot_named_params_recurse_slot_named_params_loop.induct)
  case (1 ty sl params parent_name)
  then show ?case by simp
next
  case (2 params parent_name)
  then show ?case by simp
next
  case (3 attr slot rest params parent_name)
  let ?name = "(if length parent_name = 0 then parent_name else parent_name @ ''.'') @ attr"
  let ?d = "dotted parent_name attr"
  have name: "?name = ?d"
    by (rule dotted_name)
  let ?rest = "grad_slots_list parent_name rest"
  show ?case
  proof (cases slot)
    case (ITensor t)
    show ?thesis
    proof (cases "requires_grad t")
      case True
      have "slot_named_params_loop ((attr, slot) # rest) params parent_name
              = slot_named_params_loop rest (params(?name \<mapsto> t)) parent_name"
        using ITensor True by (simp add: Let_def)
      also have "\<dots> = params(?name \<mapsto> t) ++ map_of (rev ?rest)"
        by (rule "3.IH"(4) [OF refl ITensor True])
      also have "\<dots> = params(?d \<mapsto> t) ++ map_of (rev ?rest)"
        by (simp only: name)
      also have "\<dots> = (params ++ [?d \<mapsto> t]) ++ map_of (rev ?rest)"
        by simp
      also have "\<dots> = params ++ ([?d \<mapsto> t] ++ map_of (rev ?rest))"
        by (simp only: map_add_assoc)
      also have "[?d \<mapsto> t] ++ map_of (rev ?rest) = map_of (rev ?rest @ [(?d, t)])"
        by (simp only: map_of_append) simp
      also have "rev ?rest @ [(?d, t)] = rev (grad_slots_list parent_name ((attr, slot) # rest))"
        using ITensor True by simp
      finally show ?thesis .
    next
      case False
      from "3.IH"(5) [OF refl ITensor False] ITensor False show ?thesis
        by (simp add: Let_def)
    qed
  next
    case (IObject child)
    let ?sub = "grad_slots ?d child"
    have "slot_named_params_loop ((attr, slot) # rest) params parent_name
            = slot_named_params_loop rest
                (slot_named_params_recurse child params ?name) parent_name"
      using IObject by (simp add: Let_def)
    also have "\<dots> = slot_named_params_recurse child params ?name ++ map_of (rev ?rest)"
      by (rule "3.IH"(7) [OF refl IObject])
    also have "slot_named_params_recurse child params ?name
                 = params ++ map_of (rev (grad_slots ?name child))"
      by (rule "3.IH"(6) [OF refl IObject])
    also have "grad_slots ?name child = ?sub"
      by (simp only: name)
    also have "(params ++ map_of (rev ?sub)) ++ map_of (rev ?rest)
                 = params ++ (map_of (rev ?sub) ++ map_of (rev ?rest))"
      by (simp only: map_add_assoc)
    also have "map_of (rev ?sub) ++ map_of (rev ?rest) = map_of (rev ?rest @ rev ?sub)"
      by (simp only: map_of_append)
    also have "rev ?rest @ rev ?sub = rev (grad_slots_list parent_name ((attr, slot) # rest))"
      using IObject by simp
    finally show ?thesis .
  next
    case INone
    with "3.IH"(1) [OF refl INone] show ?thesis by (simp add: Let_def)
  next
    case (IBool b)
    with "3.IH"(2) [OF refl IBool] show ?thesis by (simp add: Let_def)
  next
    case (IInt i)
    with "3.IH"(3) [OF refl IInt] show ?thesis by (simp add: Let_def)
  qed
qed

text \<open>
  Claim C8, as stated, on a tree where two gradient-tracking tensor slots have the same
  dotted path: the root slot \<open>a.b\<close> and the slot \<open>b\<close> of the object in the root
  slot \<open>a\<close>. The second assignment replaces the first, and the mapping has one entry
  for the two slots.
\<close>

theorem named_parameters_collision_counterexample:
  "grad_slots [] (m_object module_collision)
     = [(''a.b'', Tensor 1 True), (''a.b'', Tensor 2 True)]
   \<and> named_parameters module_collision = [''a.b'' \<mapsto> Tensor 2 True]
   \<and> Tensor 1 True \<notin> ran (named_parameters module_collision)"
proof -
  have slots: "grad_slots [] (m_object module_collision)
     = [(''a.b'', Tensor 1 True), (''a.b'', Tensor 2 True)]"
    by (simp add: module_collision_def dotted_def)
  have params: "named_parameters module_collision = [''a.b'' \<mapsto> Tensor 2 True]"
    by (simp add: named_parameters_def module_collision_def)
  have "ran [''a.b'' \<mapsto> Tensor 2 True] = {Tensor 2 True}"
    by simp
  with slots params show ?thesis by simp
qed

text \<open>
  Claim C8, amended. \<^verbatim>\<open>named_parameters()\<close> is the mapping obtained by visiting the
  slots depth-first and storing each gradient-tracking tensor slot under its path, a later
  slot replacing an earlier one with the same path; the path of a slot is its attribute name
  under an empty parent path and the parent path, a dot and the attribute name otherwise.
  Its keys are exactly the paths of the gradient-tracking tensor slots. When these paths
  are pairwise distinct, the mapping contains exactly the gradient-tracking tensor slots,
  each under its path. On a two-level tree where only the leaf tensor tracks gradients it
  is the one-entry mapping with key \<open>child.leaf\<close>.
\<close>

theorem named_parameters_grad_slots:
  "named_parameters m = map_of (rev (grad_slots [] (m_object m)))
   \<and> dom (named_parameters m) = fst ` set (grad_slots [] (m_object m))
   \<and> (distinct (map fst (grad_slots [] (m_object m))) \<longrightarrow>
        (\<forall>k t. (named_parameters m k = Some t) = ((k, t) \<in> set (grad_slots [] (m_object m)))))
   \<and> (requires_grad t \<and> \<not> requires_grad u
        \<and> m_object m = Object ty
             [(''weight'', ITensor u),
              (''child'', IObject (Object ty' [(''leaf'', ITensor t)]))]
      \<longrightarrow> named_parameters m = [''child.leaf'' \<mapsto> t])"
proof -
  let ?gs = "grad_slots [] (m_object m)"
  have eq: "named_parameters m = map_of (rev ?gs)"
    by (simp add: named_parameters_def slot_named_params_grad_slots(1))
  have keys: "dom (named_parameters m) = fst ` set ?gs"
    unfolding eq by (simp add: dom_map_of_conv_image_fst)
  have exact: "distinct (map fst ?gs) \<longrightarrow>
        (\<forall>k t. (named_parameters m k = Some t) = ((k, t) \<in> set ?gs))"
  proof
    assume "distinct (map fst ?gs)"
    then have "distinct (map fst (rev ?gs))"
      by (simp add: rev_map [symmetric])
    then show "\<forall>k t. (named_parameters m k = Some t) = ((k, t) \<in> set ?gs)"
      unfolding eq by simp
  qed
  have two: "requires_grad t \<and> \<not> requires_grad u
        \<and> m_object m = Object ty
             [(''weight'', ITensor u),
              (''child'', IObject (Object ty' [(''leaf'', ITensor t)]))]
      \<longrightarrow> named_parameters m = [''child.leaf'' \<mapsto> t]"
    by (simp add: named_parameters_def)
  from eq keys exact two show ?thesis by blast
qed

theorem named_parameters_grad_slots_witness:
  "distinct (map fst (grad_slots [] (m_object module_two_level)))
   \<and> (''child.leaf'', Tensor 2 True) \<in> set (grad_slots [] (m_object module_two_level))
   \<and> named_parameters module_two_level ''child.leaf'' = Some (Tensor 2 True)
   \<and> named_parameters module_two_level = [''child.leaf'' \<mapsto> Tensor 2 True]"
proof -
  have d: "distinct (map fst (grad_slots [] (m_object module_two_level)))"
    and mem: "(''child.leaf'', Tensor 2 True) \<in> set (grad_slots [] (m_object module_two_level))"
    by (simp_all add: module_two_level_def dotted_def)
  have shape: "requires_grad (Tensor 2 True) \<and> \<not> requires_grad (Tensor 1 False)
     \<and> m_object module_two_level = Object (Some ''M'')
          [(''weight'', ITensor (Tensor 1 False)),
           (''child'', IObject (Object (Some ''Leaf'') [(''leaf'', ITensor (Tensor 2 True))]))]"
    by (simp add: module_two_level_def)
  note inst = named_parameters_grad_slots
    [of module_two_level "Tensor 2 True" "Tensor 1 False" "Some ''M''" "Some ''Leaf''"]
  from inst d mem have "named_parameters module_two_level ''child.leaf'' = Some (Tensor 2 True)"
    by blast
  moreover from inst shape
  have "named_parameters module_two_level = [''child.leaf'' \<mapsto> Tensor 2 True]"
    by blast
  ultimately show ?thesis using d mem by blast
qed

section \<open>Debug information of the forward method\<close>

text \<open>
  Claim C9, evaluated on a module whose compilation unit has no method named
  \<open>forward\<close>: \<^verbatim>\<open>find_method\<close> returns the empty optional,
  \<^verbatim>\<open>get_forward_method_debug_info\<close> accesses it with no test and raises nothing, while
  \<^verbatim>\<open>get_method\<close> on the same name raises the "not defined" error.
\<close>

theorem forward_debug_info_without_forward:
  "find_method module_no_forward ''forward'' = None
   \<and> get_forward_method_debug_info runtime_sym module_no_forward 0 = EmptyOptionalAccess
   \<and> get_method module_no_forward ''forward''
       = Throws (Error (''Method '' @ [CHR 0x27] @ ''forward'' @ [CHR 0x27] @ '' is not defined.'') [])"
  by (simp add: find_method_def get_forward_method_debug_info_def get_method_def
      module_no_forward_def fn_backend_fails_def)


end
